theory Spec2Isabelle
  imports Main
begin

section \<open>Run-time panics of the Go code\<close>

text \<open>
  A Go run-time panic that no handler recovers ends the goroutine it happens in, and
  with it the program. Every operation of the source that can panic is modelled as a
  function into \<open>panic + 'a\<close>, with \<open>Inl\<close> for the panic.
\<close>

datatype panic = IndexOutOfRange | SliceBoundsOutOfRange | DivideByZero | NilDereference | NegativeLen

text \<open>\<open>xs[i]\<close> read and written, with Go's bounds check.\<close>

definition index_get :: "'a list \<Rightarrow> int \<Rightarrow> panic + 'a" where
  "index_get xs i = (if 0 \<le> i \<and> i < int (length xs) then Inr (xs ! nat i) else Inl IndexOutOfRange)"

definition index_set :: "'a list \<Rightarrow> int \<Rightarrow> 'a \<Rightarrow> panic + 'a list" where
  "index_set xs i v = (if 0 \<le> i \<and> i < int (length xs) then Inr (xs[nat i := v]) else Inl IndexOutOfRange)"

text \<open>\<open>xs[i:]\<close>, which panics when \<open>i\<close> exceeds the length.\<close>

definition slice_from :: "'a list \<Rightarrow> nat \<Rightarrow> panic + 'a list" where
  "slice_from xs i = (if i \<le> length xs then Inr (drop i xs) else Inl SliceBoundsOutOfRange)"

text \<open>
  Go's \<open>a % b\<close> on \<open>int\<close>: the remainder of the division truncated towards zero
  (it has the sign of \<open>a\<close>), and a panic when \<open>b\<close> is zero.
\<close>

definition go_rem :: "int \<Rightarrow> int \<Rightarrow> panic + int" where
  "go_rem a b = (if b = 0 then Inl DivideByZero else Inr (sgn a * (\<bar>a\<bar> mod \<bar>b\<bar>)))"

text \<open>\<open>make([]string, n)\<close>: \<open>n\<close> empty strings, and a panic when \<open>n\<close> is negative.\<close>

definition make_strings :: "int \<Rightarrow> panic + string list" where
  "make_strings n = (if n < 0 then Inl NegativeLen else Inr (replicate (nat n) []))"

section \<open>The bounded history buffer\<close>

text \<open>
  \<open>CircularBuffer\<close> is the same type, with the same \<open>Add\<close> and \<open>GetAll\<close>, in
  package \<open>chat\<close> and in \<open>chatv2/main.go\<close>. The fields \<open>size\<close> and \<open>end\<close> are
  \<open>size_f\<close> and \<open>end_f\<close> here. The fields are Go \<open>int\<close>s (64 bits); they are modelled
  as unbounded integers, since \<open>Add\<close> keeps them between 0 and the length of the slice.
  The mutex has no effect on a single caller and is left out.
\<close>

record CircularBuffer =
  messages :: "string list"
  size_f :: int
  start :: int
  end_f :: int
  count :: int

definition NewCircularBuffer :: "int \<Rightarrow> panic + CircularBuffer" where
  "NewCircularBuffer n =
     (case make_strings n of
        Inl e \<Rightarrow> Inl e
      | Inr ms \<Rightarrow> Inr \<lparr>messages = ms, size_f = n, start = 0, end_f = 0, count = 0\<rparr>)"

definition Add :: "CircularBuffer \<Rightarrow> string \<Rightarrow> panic + CircularBuffer" where
  "Add cb message =
     (case index_set (messages cb) (end_f cb) message of
        Inl e \<Rightarrow> Inl e
      | Inr ms \<Rightarrow>
          (case go_rem (end_f cb + 1) (size_f cb) of
             Inl e \<Rightarrow> Inl e
           | Inr e' \<Rightarrow>
               if count cb = size_f cb then
                 (case go_rem (start cb + 1) (size_f cb) of
                    Inl e \<Rightarrow> Inl e
                  | Inr s' \<Rightarrow> Inr (cb\<lparr>messages := ms, end_f := e', start := s'\<rparr>))
               else Inr (cb\<lparr>messages := ms, end_f := e', count := count cb + 1\<rparr>)))"

text \<open>The loop of \<open>GetAll\<close>: \<open>for i := 0; i < cb.count; i++\<close>.\<close>

function GetAll_loop :: "CircularBuffer \<Rightarrow> int \<Rightarrow> string list \<Rightarrow> panic + string list" where
  "GetAll_loop cb i result =
     (if i < count cb then
        (case go_rem (start cb + i) (size_f cb) of
           Inl e \<Rightarrow> Inl e
         | Inr j \<Rightarrow>
             (case index_get (messages cb) j of
                Inl e \<Rightarrow> Inl e
              | Inr m \<Rightarrow>
                  (case index_set result i m of
                     Inl e \<Rightarrow> Inl e
                   | Inr result' \<Rightarrow> GetAll_loop cb (i + 1) result')))
      else Inr result)"
  by pat_completeness auto
termination
  by (relation "measure (\<lambda>(cb, i, result). nat (count cb - i))") auto

declare GetAll_loop.simps [simp del]

definition GetAll :: "CircularBuffer \<Rightarrow> panic + string list" where
  "GetAll cb =
     (case make_strings (count cb) of
        Inl e \<Rightarrow> Inl e
      | Inr result \<Rightarrow> GetAll_loop cb 0 result)"

text \<open>A finite sequence of \<open>Add\<close> calls, stopping at the first panic.\<close>

fun Add_all :: "CircularBuffer \<Rightarrow> string list \<Rightarrow> panic + CircularBuffer" where
  "Add_all cb [] = Inr cb"
| "Add_all cb (m # ms) = (case Add cb m of Inl e \<Rightarrow> Inl e | Inr cb' \<Rightarrow> Add_all cb' ms)"

text \<open>What \<open>GetAll\<close> returns on a new buffer of capacity \<open>n\<close> after the given \<open>Add\<close> calls.\<close>

definition history_after :: "int \<Rightarrow> string list \<Rightarrow> panic + string list" where
  "history_after n ms =
     (case NewCircularBuffer n of
        Inl e \<Rightarrow> Inl e
      | Inr cb0 \<Rightarrow> (case Add_all cb0 ms of Inl e \<Rightarrow> Inl e | Inr cb \<Rightarrow> GetAll cb))"

text \<open>The first \<open>Add\<close> on a new buffer of capacity \<open>n\<close>.\<close>

definition Add_first :: "int \<Rightarrow> string \<Rightarrow> panic + CircularBuffer" where
  "Add_first n m = (case NewCircularBuffer n of Inl e \<Rightarrow> Inl e | Inr cb \<Rightarrow> Add cb m)"

text \<open>
  The invariant of the buffer: the counters are within the capacity, and the backing
  slice has the length it was made with.
\<close>

definition cb_inv :: "CircularBuffer \<Rightarrow> bool" where
  "cb_inv cb \<longleftrightarrow>
     0 \<le> count cb \<and> count cb \<le> size_f cb \<and>
     0 \<le> start cb \<and> start cb < size_f cb \<and>
     0 \<le> end_f cb \<and> end_f cb < size_f cb \<and>
     int (length (messages cb)) = size_f cb"

text \<open>The ring invariant ties the write position to the logical start.\<close>

definition cb_ring :: "CircularBuffer \<Rightarrow> bool" where
  "cb_ring cb \<longleftrightarrow> cb_inv cb \<and> end_f cb = (start cb + count cb) mod size_f cb"

text \<open>The messages a buffer holds, oldest first.\<close>

definition cb_contents :: "CircularBuffer \<Rightarrow> string list" where
  "cb_contents cb =
     map (\<lambda>i. messages cb ! nat ((start cb + int i) mod size_f cb)) [0..<nat (count cb)]"


section \<open>Connections, clients and the state the processor works on\<close>

text \<open>
  A \<open>net.Conn\<close> is identified by a number. \<open>NewClient\<close> makes one \<open>Client\<close> for each
  accepted connection and never reassigns its \<open>Conn\<close>, so a \<open>*Client\<close> is identified
  with its connection, and so is the \<open>RemoteAddr()\<close> that package \<open>chat\<close> uses as the
  key of a membership map. A \<open>*Room\<close> is a reference into a store of rooms; \<open>nil\<close> is
  \<open>None\<close>.
\<close>

type_synonym conn = nat

type_synonym room_ref = nat

record Client =
  NickName :: string
  Room :: "room_ref option"

datatype 'id Command = Command (ID: 'id) (Client: conn) (Args: "string list")

text \<open>
  The state is the registry \<open>Server.Rooms\<close> (an association list: the order in which Go
  enumerates a map is unspecified, and no theorem below depends on it), the store of
  rooms with its allocation counter, the clients, and for every connection the lines
  written to it while it was open and whether it has been closed. A \<open>Write\<close> on a
  closed connection returns an error, which every caller in the source discards.
\<close>

record 'r state =
  Rooms :: "(string \<times> room_ref) list"
  heap :: "room_ref \<Rightarrow> 'r"
  next_ref :: room_ref
  clients :: "conn \<Rightarrow> Client"
  written :: "conn \<Rightarrow> string list"
  closed :: "conn \<Rightarrow> bool"

definition Conn_Write :: "conn \<Rightarrow> string \<Rightarrow> 'r state \<Rightarrow> 'r state" where
  "Conn_Write k bytes s =
     (if closed s k then s else s\<lparr>written := (written s)(k := written s k @ [bytes])\<rparr>)"

definition Conn_Close :: "conn \<Rightarrow> 'r state \<Rightarrow> 'r state" where
  "Conn_Close k s = s\<lparr>closed := (closed s)(k := True)\<rparr>"

text \<open>\<open>Client.Error\<close>, the same in both packages, and \<open>Client.Message\<close> of package \<open>chat\<close>.\<close>

definition Client_Error :: "conn \<Rightarrow> string \<Rightarrow> 'r state \<Rightarrow> 'r state" where
  "Client_Error c err s = Conn_Write c (''Error: '' @ err @ ''\<newline>'') s"

definition Client_Message :: "conn \<Rightarrow> string \<Rightarrow> 'r state \<Rightarrow> 'r state" where
  "Client_Message c msg s = Conn_Write c (''> '' @ msg @ ''\<newline>'') s"

fun strings_Join :: "string list \<Rightarrow> string \<Rightarrow> string" where
  "strings_Join [] sep = []"
| "strings_Join [x] sep = x"
| "strings_Join (x # y # zs) sep = x @ sep @ strings_Join (y # zs) sep"

section \<open>Package chat: the server whose rooms have members only\<close>

text \<open>
  The membership map of a room (\<open>map[net.Addr]*Client\<close> here, a \<open>sync.Map\<close> in chatv2)
  is the list of its keys: the value stored under a key is always the client of that
  connection. Storing a key is \<open>List.insert\<close>, which leaves a list that has it unchanged,
  and deleting it is \<open>removeAll\<close>.
\<close>

datatype commandID = CMD_NICKNAME | CMD_JOIN | CMD_ROOMS | CMD_MSG | CMD_QUIT

record chat_Room =
  chat_Name :: string
  chat_Members :: "conn list"

definition chat_NewServer :: "chat_Room state" where
  "chat_NewServer =
     \<lparr>Rooms = [], heap = (\<lambda>r. \<lparr>chat_Name = [], chat_Members = []\<rparr>), next_ref = 0,
      clients = (\<lambda>c. \<lparr>NickName = ''Anonymous'', Room = None\<rparr>),
      written = (\<lambda>c. []), closed = (\<lambda>c. False)\<rparr>"

text \<open>
  \<open>Room.Broadcast\<close>. The receiver may be \<open>nil\<close>: reading \<open>r.Members\<close> then panics.
  The keys of a Go map are distinct, so the loop visits every member once.
\<close>

definition Room_Broadcast :: "room_ref option \<Rightarrow> conn \<Rightarrow> string \<Rightarrow> chat_Room state \<Rightarrow> panic + chat_Room state" where
  "Room_Broadcast r sender msg s =
     (case r of
        None \<Rightarrow> Inl NilDereference
      | Some p \<Rightarrow>
          Inr (fold (\<lambda>addr s'. if addr \<noteq> sender then Client_Message addr msg s' else s')
                 (chat_Members (heap s p)) s))"

definition chat_NickName :: "conn \<Rightarrow> string list \<Rightarrow> chat_Room state \<Rightarrow> panic + chat_Room state" where
  "chat_NickName c args s =
     (case index_get args 1 of
        Inl e \<Rightarrow> Inl e
      | Inr name \<Rightarrow>
          let s1 = s\<lparr>clients := (clients s)(c := (clients s c)\<lparr>NickName := name\<rparr>)\<rparr>
          in Inr (Client_Message c (''all right, Server will know you by '' @ NickName (clients s1 c)) s1))"

definition chat_quitCurrentRoom :: "conn \<Rightarrow> chat_Room state \<Rightarrow> panic + chat_Room state" where
  "chat_quitCurrentRoom c s =
     (case Room (clients s c) of
        None \<Rightarrow> Inr s
      | Some p \<Rightarrow>
          let s1 = s\<lparr>heap := (heap s)(p := (heap s p)\<lparr>chat_Members := removeAll c (chat_Members (heap s p))\<rparr>)\<rparr>
          in Room_Broadcast (Some p) c (NickName (clients s1 c) @ '' has left the chat'') s1)"

definition chat_Join :: "conn \<Rightarrow> string list \<Rightarrow> chat_Room state \<Rightarrow> panic + chat_Room state" where
  "chat_Join c args s =
     (case index_get args 1 of
        Inl e \<Rightarrow> Inl e
      | Inr roomName \<Rightarrow>
          let (r, s1) =
                (case map_of (Rooms s) roomName of
                   Some r \<Rightarrow> (r, s)
                 | None \<Rightarrow>
                     (next_ref s,
                      s\<lparr>heap := (heap s)(next_ref s := \<lparr>chat_Name = roomName, chat_Members = []\<rparr>),
                        next_ref := Suc (next_ref s),
                        Rooms := Rooms s @ [(roomName, next_ref s)]\<rparr>));
              s2 = s1\<lparr>heap := (heap s1)(r := (heap s1 r)\<lparr>chat_Members := List.insert c (chat_Members (heap s1 r))\<rparr>)\<rparr>
          in (case chat_quitCurrentRoom c s2 of
                Inl e \<Rightarrow> Inl e
              | Inr s3 \<Rightarrow>
                  let s4 = s3\<lparr>clients := (clients s3)(c := (clients s3 c)\<lparr>Room := Some r\<rparr>)\<rparr>
                  in (case Room_Broadcast (Some r) c (NickName (clients s4 c) @ '' has joined the room'') s4 of
                        Inl e \<Rightarrow> Inl e
                      | Inr s5 \<Rightarrow> Inr (Client_Message c (''Welcome to '' @ chat_Name (heap s5 r)) s5))))"

definition chat_ListRooms :: "conn \<Rightarrow> string list \<Rightarrow> chat_Room state \<Rightarrow> panic + chat_Room state" where
  "chat_ListRooms c args s =
     Inr (Client_Message c (''available rooms are '' @ strings_Join (map fst (Rooms s)) '', '') s)"

text \<open>
  \<open>Server.Message\<close> of package \<open>chat\<close>: the branch for a client without a room reports
  the error and does not return, so the broadcast on the \<open>nil\<close> room follows.
\<close>

definition chat_Message :: "conn \<Rightarrow> string list \<Rightarrow> chat_Room state \<Rightarrow> panic + chat_Room state" where
  "chat_Message c args s =
     (let s1 = (if Room (clients s c) = None then Client_Error c ''you must join the room first'' s else s)
      in (case slice_from args 1 of
            Inl e \<Rightarrow> Inl e
          | Inr rest \<Rightarrow>
              Room_Broadcast (Room (clients s1 c)) c
                (NickName (clients s1 c) @ '' : '' @ strings_Join rest '' '') s1))"

definition chat_Quit :: "conn \<Rightarrow> string list \<Rightarrow> chat_Room state \<Rightarrow> panic + chat_Room state" where
  "chat_Quit c args s =
     (case chat_quitCurrentRoom c s of
        Inl e \<Rightarrow> Inl e
      | Inr s1 \<Rightarrow> Inr (Conn_Close c (Client_Message c ''sad to see you go :('' s1)))"

text \<open>
  \<open>Server.Run\<close>: the commands of the channel, in arrival order. A panic in a handler
  ends the loop (and the program); \<open>Inr\<close> is the state once every command of the list
  has been processed.
\<close>

fun chat_Run :: "commandID Command list \<Rightarrow> chat_Room state \<Rightarrow> panic + chat_Room state" where
  "chat_Run [] s = Inr s"
| "chat_Run (cmd # cmds) s =
     (case (case ID cmd of
              CMD_NICKNAME \<Rightarrow> chat_NickName (Client cmd) (Args cmd) s
            | CMD_ROOMS \<Rightarrow> chat_ListRooms (Client cmd) (Args cmd) s
            | CMD_JOIN \<Rightarrow> chat_Join (Client cmd) (Args cmd) s
            | CMD_MSG \<Rightarrow> chat_Message (Client cmd) (Args cmd) s
            | CMD_QUIT \<Rightarrow> chat_Quit (Client cmd) (Args cmd) s) of
        Inl e \<Rightarrow> Inl e
      | Inr s' \<Rightarrow> chat_Run cmds s')"

section \<open>chatv2: the server whose rooms keep a history\<close>

text \<open>
  In \<open>chatv2/main.go\<close> a \<open>CommandID\<close> is a string, the registry and the membership of a
  room are \<open>sync.Map\<close>s (a membership is keyed by the connection), and a room owns a
  \<open>CircularBuffer\<close> of \<open>ChatRoomBufferSize\<close> messages. The metrics and the log are
  left out.
\<close>

definition CmdNickname :: string where "CmdNickname = ''/name''"
definition CmdRooms :: string where "CmdRooms = ''/rooms''"
definition CmdJoin :: string where "CmdJoin = ''/join''"
definition CmdMsg :: string where "CmdMsg = ''/msg''"
definition CmdQuit :: string where "CmdQuit = ''/quit''"

definition ChatRoomBufferSize :: int where "ChatRoomBufferSize = 5"

record v2_Room =
  v2_Name :: string
  v2_Clients :: "conn list"
  v2_Messages :: CircularBuffer

definition v2_NewRoom :: "string \<Rightarrow> int \<Rightarrow> panic + v2_Room" where
  "v2_NewRoom name messageBufferSize =
     (case NewCircularBuffer messageBufferSize of
        Inl e \<Rightarrow> Inl e
      | Inr cb \<Rightarrow> Inr \<lparr>v2_Name = name, v2_Clients = [], v2_Messages = cb\<rparr>)"

definition v2_Server :: "v2_Room state" where
  "v2_Server =
     \<lparr>Rooms = [],
      heap = (\<lambda>r. \<lparr>v2_Name = [], v2_Clients = [],
                    v2_Messages = \<lparr>messages = [], size_f = 0, start = 0, end_f = 0, count = 0\<rparr>\<rparr>),
      next_ref = 0,
      clients = (\<lambda>c. \<lparr>NickName = ''Anonymous'', Room = None\<rparr>),
      written = (\<lambda>c. []), closed = (\<lambda>c. False)\<rparr>"

text \<open>\<open>Server.broadcastMessage\<close>: it has no sender parameter and writes to every client of the room.\<close>

definition v2_broadcastMessage :: "room_ref \<Rightarrow> string \<Rightarrow> v2_Room state \<Rightarrow> v2_Room state" where
  "v2_broadcastMessage room msg s =
     fold (\<lambda>client s'. Conn_Write client (msg @ ''\<newline>'') s') (v2_Clients (heap s room)) s"

definition v2_ListRooms :: "conn \<Rightarrow> string list \<Rightarrow> v2_Room state \<Rightarrow> panic + v2_Room state" where
  "v2_ListRooms c args s =
     (let roomNames = map fst (Rooms s);
          roomList = (if length roomNames = 0 then ''no rooms available'' else strings_Join roomNames '', '')
      in Inr (Conn_Write c (''Rooms: '' @ roomList @ ''\<newline>'') s))"

definition v2_NickName :: "conn \<Rightarrow> string list \<Rightarrow> v2_Room state \<Rightarrow> panic + v2_Room state" where
  "v2_NickName c args s =
     (if length args < 2 then Inr (Client_Error c ''nickname is required. usage: /name NEW_NICKNAME'' s)
      else
        (case index_get args 1 of
           Inl e \<Rightarrow> Inl e
         | Inr name \<Rightarrow>
             let s1 = s\<lparr>clients := (clients s)(c := (clients s c)\<lparr>NickName := name\<rparr>)\<rparr>
             in Inr (Conn_Write c (''Nickname changed to: '' @ NickName (clients s1 c) @ ''\<newline>'') s1)))"

definition v2_Message :: "conn \<Rightarrow> string list \<Rightarrow> v2_Room state \<Rightarrow> panic + v2_Room state" where
  "v2_Message c args s =
     (if length args < 2 then Inr (Client_Error c ''message is required. usage: /msg ROOM MESSAGE'' s)
      else
        (case index_get args 1 of
           Inl e \<Rightarrow> Inl e
         | Inr roomName \<Rightarrow>
             (case slice_from args 2 of
                Inl e \<Rightarrow> Inl e
              | Inr rest \<Rightarrow>
                  let msg = strings_Join rest '' '' in
                  (case map_of (Rooms s) roomName of
                     None \<Rightarrow> Inr (Client_Error c ''room not found'' s)
                   | Some room \<Rightarrow>
                       let formattedMsg = NickName (clients s c) @ '': '' @ msg in
                       (case Add (v2_Messages (heap s room)) formattedMsg of
                          Inl e \<Rightarrow> Inl e
                        | Inr cb \<Rightarrow>
                            Inr (v2_broadcastMessage room formattedMsg
                                   (s\<lparr>heap := (heap s)(room := (heap s room)\<lparr>v2_Messages := cb\<rparr>)\<rparr>)))))))"

definition v2_Join :: "conn \<Rightarrow> string list \<Rightarrow> v2_Room state \<Rightarrow> panic + v2_Room state" where
  "v2_Join c args s =
     (if length args < 2 then Inr (Client_Error c ''room name is required. usage: /join ROOM'' s)
      else
        (case index_get args 1 of
           Inl e \<Rightarrow> Inl e
         | Inr roomName \<Rightarrow>
             (case (case map_of (Rooms s) roomName of
                      Some room \<Rightarrow> Inr (room, s)
                    | None \<Rightarrow>
                        (case v2_NewRoom roomName ChatRoomBufferSize of
                           Inl e \<Rightarrow> Inl e
                         | Inr new \<Rightarrow>
                             Inr (next_ref s,
                                  s\<lparr>heap := (heap s)(next_ref s := new),
                                    next_ref := Suc (next_ref s),
                                    Rooms := Rooms s @ [(roomName, next_ref s)]\<rparr>))) of
                Inl e \<Rightarrow> Inl e
              | Inr (room, s1) \<Rightarrow>
                  let s2 = s1\<lparr>heap := (heap s1)(room := (heap s1 room)\<lparr>v2_Clients := List.insert c (v2_Clients (heap s1 room))\<rparr>)\<rparr>;
                      s3 = s2\<lparr>clients := (clients s2)(c := (clients s2 c)\<lparr>Room := Some room\<rparr>)\<rparr>
                  in (case GetAll (v2_Messages (heap s3 room)) of
                        Inl e \<Rightarrow> Inl e
                      | Inr msgs \<Rightarrow>
                          let s4 = fold (\<lambda>msg s'. Conn_Write c (msg @ ''\<newline>'') s') msgs s3
                          in Inr (v2_broadcastMessage room (NickName (clients s4 c) @ '' joined the room'') s4)))))"

definition v2_Quit :: "conn \<Rightarrow> string list \<Rightarrow> v2_Room state \<Rightarrow> panic + v2_Room state" where
  "v2_Quit c args s =
     (let s1 =
            (case Room (clients s c) of
               None \<Rightarrow> s
             | Some room \<Rightarrow>
                 let sa = s\<lparr>heap := (heap s)(room := (heap s room)\<lparr>v2_Clients := removeAll c (v2_Clients (heap s room))\<rparr>)\<rparr>;
                     sb = v2_broadcastMessage room (NickName (clients sa c) @ '' left the room'') sa
                 in sb\<lparr>clients := (clients sb)(c := (clients sb c)\<lparr>Room := None\<rparr>)\<rparr>)
      in Inr (Conn_Close c s1))"

text \<open>\<open>Server.Run\<close>: the switch on the command's string; a command of another ID is skipped.\<close>

fun v2_Run :: "string Command list \<Rightarrow> v2_Room state \<Rightarrow> panic + v2_Room state" where
  "v2_Run [] s = Inr s"
| "v2_Run (cmd # cmds) s =
     (case (if ID cmd = CmdNickname then v2_NickName (Client cmd) (Args cmd) s
            else if ID cmd = CmdRooms then v2_ListRooms (Client cmd) (Args cmd) s
            else if ID cmd = CmdJoin then v2_Join (Client cmd) (Args cmd) s
            else if ID cmd = CmdMsg then v2_Message (Client cmd) (Args cmd) s
            else if ID cmd = CmdQuit then v2_Quit (Client cmd) (Args cmd) s
            else Inr s) of
        Inl e \<Rightarrow> Inl e
      | Inr s' \<Rightarrow> v2_Run cmds s')"

section \<open>Observations of a run\<close>

text \<open>
  The lines a connection has received, the members of a named room and its history,
  the panic with which the loop has exited, and whether a connection has been closed.
\<close>

definition received :: "conn \<Rightarrow> panic + 'r state \<Rightarrow> string list option" where
  "received k res = (case res of Inl e \<Rightarrow> None | Inr s \<Rightarrow> Some (written s k))"

definition chat_members_of :: "string \<Rightarrow> panic + chat_Room state \<Rightarrow> conn list option" where
  "chat_members_of name res =
     (case res of
        Inl e \<Rightarrow> None
      | Inr s \<Rightarrow> (case map_of (Rooms s) name of None \<Rightarrow> None | Some r \<Rightarrow> Some (chat_Members (heap s r))))"

definition v2_clients_of :: "string \<Rightarrow> panic + v2_Room state \<Rightarrow> conn list option" where
  "v2_clients_of name res =
     (case res of
        Inl e \<Rightarrow> None
      | Inr s \<Rightarrow> (case map_of (Rooms s) name of None \<Rightarrow> None | Some r \<Rightarrow> Some (v2_Clients (heap s r))))"

definition v2_history_of :: "string \<Rightarrow> panic + v2_Room state \<Rightarrow> string list option" where
  "v2_history_of name res =
     (case res of
        Inl e \<Rightarrow> None
      | Inr s \<Rightarrow>
          (case map_of (Rooms s) name of
             None \<Rightarrow> None
           | Some r \<Rightarrow> (case GetAll (v2_Messages (heap s r)) of Inl e \<Rightarrow> None | Inr ms \<Rightarrow> Some ms)))"

definition loop_exit :: "panic + 'r state \<Rightarrow> panic option" where
  "loop_exit res = (case res of Inl e \<Rightarrow> Some e | Inr s \<Rightarrow> None)"

definition hung_up :: "conn \<Rightarrow> panic + 'r state \<Rightarrow> bool option" where
  "hung_up k res = (case res of Inl e \<Rightarrow> None | Inr s \<Rightarrow> Some (closed s k))"

text \<open>The state a run ends in (\<open>d\<close> when the loop has exited with a panic).\<close>

definition state_of :: "'r state \<Rightarrow> panic + 'r state \<Rightarrow> 'r state" where
  "state_of d res = (case res of Inl e \<Rightarrow> d | Inr s \<Rightarrow> s)"

text \<open>
  What \<open>Join\<close> of chatv2 works on: the room registered under the name, or the one it
  is about to allocate; and the history a joiner of that name is to be shown, which is
  \<open>GetAll\<close> of the room's buffer, and nothing for a room that does not exist yet
  (\<open>NewRoom\<close> gives it an empty buffer).
\<close>

definition v2_room_of :: "string \<Rightarrow> v2_Room state \<Rightarrow> room_ref" where
  "v2_room_of name s = (case map_of (Rooms s) name of None \<Rightarrow> next_ref s | Some r \<Rightarrow> r)"

definition v2_history :: "string \<Rightarrow> v2_Room state \<Rightarrow> panic + string list" where
  "v2_history name s =
     (case map_of (Rooms s) name of None \<Rightarrow> Inr [] | Some r \<Rightarrow> GetAll (v2_Messages (heap s r)))"

text \<open>
  The invariant of the chatv2 registry: every registered room has a well-formed buffer
  and, as the keys of a \<open>sync.Map\<close> are, pairwise distinct clients.
\<close>

definition v2_rooms_ok :: "v2_Room state \<Rightarrow> bool" where
  "v2_rooms_ok s \<longleftrightarrow>
     (\<forall>(name, r) \<in> set (Rooms s). cb_inv (v2_Messages (heap s r)) \<and> distinct (v2_Clients (heap s r)))"

text \<open>
  Two reachable states used as examples: clients 1 and 2 have joined the room
  \<open>lobby\<close>; in chatv2 client 1 has also sent \<open>hello\<close> to it.
\<close>

definition chat_lobby :: "chat_Room state" where
  "chat_lobby =
     state_of chat_NewServer
       (chat_Run [Command CMD_JOIN 1 [''/join'', ''lobby''], Command CMD_JOIN 2 [''/join'', ''lobby'']]
          chat_NewServer)"

definition v2_lobby :: "v2_Room state" where
  "v2_lobby =
     state_of v2_Server
       (v2_Run [Command CmdJoin 1 [''/join'', ''lobby''], Command CmdJoin 2 [''/join'', ''lobby''],
                Command CmdMsg 1 [''/msg'', ''lobby'', ''hello'']]
          v2_Server)"

section \<open>The history buffer: invariant and contents\<close>


lemma go_rem_nonneg: "0 \<le> a \<Longrightarrow> 0 < b \<Longrightarrow> go_rem a b = Inr (a mod b)"
  by (simp add: go_rem_def sgn_if)

lemma mod_shift_neq:
  fixes a :: int
  assumes "0 < i" "i < n"
  shows "(a + i) mod n \<noteq> a mod n"
proof
  assume "(a + i) mod n = a mod n"
  then have "n dvd (a + i) - a" by (simp add: mod_eq_dvd_iff)
  then have "n dvd i" by simp
  with assms show False by (simp add: zdvd_not_zless)
qed

lemma cb_inv_New: "0 < n \<Longrightarrow> NewCircularBuffer n = Inr \<lparr>messages = replicate (nat n) [], size_f = n, start = 0, end_f = 0, count = 0\<rparr>"
  by (simp add: NewCircularBuffer_def make_strings_def)

lemma cb_ring_New: "0 < n \<Longrightarrow> cb_ring \<lparr>messages = replicate (nat n) [], size_f = n, start = 0, end_f = 0, count = 0\<rparr>"
  by (simp add: cb_ring_def cb_inv_def)

lemma Add_inv:
  assumes "cb_inv cb"
  shows "\<exists>cb'. Add cb m = Inr cb' \<and> cb_inv cb' \<and> size_f cb' = size_f cb"
  using assms
  by (auto simp: Add_def cb_inv_def index_set_def go_rem_nonneg)

lemma Add_eq:
  assumes "cb_inv cb"
  shows "Add cb m = Inr (if count cb = size_f cb
     then cb\<lparr>messages := (messages cb)[nat (end_f cb) := m], end_f := (end_f cb + 1) mod size_f cb, start := (start cb + 1) mod size_f cb\<rparr>
     else cb\<lparr>messages := (messages cb)[nat (end_f cb) := m], end_f := (end_f cb + 1) mod size_f cb, count := count cb + 1\<rparr>)"
  using assms
  by (auto simp: Add_def cb_inv_def index_set_def go_rem_nonneg)

lemma GetAll_loop_eq:
  assumes "cb_inv cb" "0 \<le> i" "i \<le> count cb" "int (length result) = count cb"
  shows "GetAll_loop cb i result =
     Inr (take (nat i) result @ map (\<lambda>j. messages cb ! nat ((start cb + int j) mod size_f cb)) [nat i..<nat (count cb)])"
  using assms
proof (induction cb i result rule: GetAll_loop.induct)
  case (1 cb i result)
  show ?case
  proof (cases "i < count cb")
    case False
    with "1.prems" have "i = count cb" by simp
    with "1.prems" show ?thesis by (simp add: GetAll_loop.simps)
  next
    case True
    let ?j = "(start cb + i) mod size_f cb"
    have sz: "0 < size_f cb" using "1.prems"(1) by (simp add: cb_inv_def)
    have rem: "go_rem (start cb + i) (size_f cb) = Inr ?j"
      using "1.prems" sz by (simp add: go_rem_nonneg cb_inv_def)
    have jb: "0 \<le> ?j" "?j < int (length (messages cb))"
      using sz "1.prems"(1) by (simp_all add: cb_inv_def)
    have get: "index_get (messages cb) ?j = Inr (messages cb ! nat ?j)"
      using jb by (simp add: index_get_def)
    have set: "index_set result i (messages cb ! nat ?j) = Inr (result[nat i := messages cb ! nat ?j])"
      using True "1.prems" by (simp add: index_set_def)
    have IH: "GetAll_loop cb (i + 1) (result[nat i := messages cb ! nat ?j]) =
       Inr (take (nat (i + 1)) (result[nat i := messages cb ! nat ?j]) @
            map (\<lambda>j. messages cb ! nat ((start cb + int j) mod size_f cb)) [nat (i + 1)..<nat (count cb)])"
      using True "1.prems" rem get set
      by (intro "1.IH"[OF True rem get set]) simp_all
    have ni: "nat (i + 1) = Suc (nat i)" using "1.prems" by simp
    have lt: "nat i < length result" using True "1.prems" by simp
    have lt2: "nat i < nat (count cb)" using True "1.prems" by simp
    have tk: "take (Suc (nat i)) (result[nat i := x]) = take (nat i) result @ [x]" for x
      using lt by (simp add: take_Suc_conv_app_nth)
    have up: "[nat i..<nat (count cb)] = nat i # [Suc (nat i)..<nat (count cb)]"
      using lt2 by (simp add: upt_conv_Cons)
    have "GetAll_loop cb i result = GetAll_loop cb (i + 1) (result[nat i := messages cb ! nat ?j])"
      using True rem get set by (subst GetAll_loop.simps) simp
    also note IH
    finally show ?thesis
      using "1.prems"(2) by (simp add: ni tk up)
  qed
qed

lemma GetAll_contents: "cb_inv cb \<Longrightarrow> GetAll cb = Inr (cb_contents cb)"
  by (simp add: GetAll_def make_strings_def GetAll_loop_eq cb_contents_def cb_inv_def)


lemma length_cb_contents: "length (cb_contents cb) = nat (count cb)"
  by (simp add: cb_contents_def)

lemma Add_ring:
  assumes "cb_ring cb"
  shows "\<exists>cb'. Add cb m = Inr cb' \<and> cb_ring cb' \<and> size_f cb' = size_f cb \<and>
     cb_contents cb' = (if count cb = size_f cb then tl (cb_contents cb) @ [m] else cb_contents cb @ [m])"
proof -
  let ?n = "size_f cb"
  have inv: "cb_inv cb" and e: "end_f cb = (start cb + count cb) mod ?n"
    using assms by (simp_all add: cb_ring_def)
  have n: "0 < ?n" and s: "0 \<le> start cb" "start cb < ?n" and c: "0 \<le> count cb" "count cb \<le> ?n"
    and len: "int (length (messages cb)) = ?n" and eb: "0 \<le> end_f cb" "end_f cb < ?n"
    using inv by (simp_all add: cb_inv_def)
  show ?thesis
  proof (cases "count cb = ?n")
    case True
    let ?cb' = "cb\<lparr>messages := (messages cb)[nat (end_f cb) := m], end_f := (end_f cb + 1) mod ?n,
                  start := (start cb + 1) mod ?n\<rparr>"
    have add: "Add cb m = Inr ?cb'" using inv True by (simp add: Add_eq)
    have es: "end_f cb = start cb" using e True s by simp
    have ring: "cb_ring ?cb'"
      using n c len True es by (simp add: cb_ring_def cb_inv_def mod_simps)
    have "cb_contents ?cb' = tl (cb_contents cb) @ [m]"
    proof (rule nth_equalityI)
      show "length (cb_contents ?cb') = length (tl (cb_contents cb) @ [m])"
        using n True by (simp add: length_cb_contents)
    next
      fix i assume "i < length (cb_contents ?cb')"
      then have i: "i < nat ?n" using True by (simp add: length_cb_contents)
      have idx: "((start cb + 1) mod ?n + int i) mod ?n = (start cb + (int i + 1)) mod ?n"
        by (simp add: mod_simps algebra_simps)
      have L: "cb_contents ?cb' ! i =
          (messages cb)[nat (start cb) := m] ! nat ((start cb + (int i + 1)) mod ?n)"
        using i \<open>count cb = ?n\<close> es by (simp add: cb_contents_def idx)
      show "cb_contents ?cb' ! i = (tl (cb_contents cb) @ [m]) ! i"
      proof (cases "Suc i < nat ?n")
        case True
        have "(start cb + (int i + 1)) mod ?n \<noteq> start cb mod ?n"
          using True by (intro mod_shift_neq) simp_all
        then have ne: "(start cb + (int i + 1)) mod ?n \<noteq> start cb" using s by simp
        have pos: "0 \<le> (start cb + (int i + 1)) mod ?n" using n by simp
        have ne': "nat ((start cb + (int i + 1)) mod ?n) \<noteq> nat (start cb)"
          using ne pos s by arith
        have il: "i < nat ?n - Suc 0" using True by arith
        have "(tl (cb_contents cb) @ [m]) ! i = cb_contents cb ! Suc i"
          using il \<open>count cb = ?n\<close> by (simp add: nth_append nth_tl length_cb_contents)
        also have "\<dots> = messages cb ! nat ((start cb + (int i + 1)) mod ?n)"
          using True \<open>count cb = ?n\<close> by (simp add: cb_contents_def add.commute)
        finally show ?thesis using L ne' by simp
      next
        case False
        with i have i': "int i + 1 = ?n" by simp
        have st: "(start cb + (int i + 1)) mod ?n = start cb" using i' s by simp
        have il: "i = nat ?n - Suc 0" using False i by arith
        have "(tl (cb_contents cb) @ [m]) ! i = m"
          using il \<open>count cb = ?n\<close> by (simp add: nth_append length_cb_contents)
        then show ?thesis
          using L st s len by simp
      qed
    qed
    with add ring True show ?thesis by simp
  next
    case False
    let ?cb' = "cb\<lparr>messages := (messages cb)[nat (end_f cb) := m], end_f := (end_f cb + 1) mod ?n,
                  count := count cb + 1\<rparr>"
    have add: "Add cb m = Inr ?cb'" using inv False by (simp add: Add_eq)
    have ring: "cb_ring ?cb'"
      using n c s len False e by (simp add: cb_ring_def cb_inv_def mod_simps algebra_simps)
    have cnt: "nat (count cb + 1) = Suc (nat (count cb))" using c by simp
    have "cb_contents ?cb' = cb_contents cb @ [m]"
    proof (rule nth_equalityI)
      show "length (cb_contents ?cb') = length (cb_contents cb @ [m])"
        using c by (simp add: length_cb_contents)
    next
      fix i assume "i < length (cb_contents ?cb')"
      then have i: "i < Suc (nat (count cb))" using c by (simp add: length_cb_contents)
      show "cb_contents ?cb' ! i = (cb_contents cb @ [m]) ! i"
      proof (cases "i < nat (count cb)")
        case True
        have "(start cb + int i + (count cb - int i)) mod ?n \<noteq> (start cb + int i) mod ?n"
          using True c False by (intro mod_shift_neq) simp_all
        then have ne: "end_f cb \<noteq> (start cb + int i) mod ?n" using e by simp
        have pos: "0 \<le> (start cb + int i) mod ?n" using n by simp
        have ne': "nat (end_f cb) \<noteq> nat ((start cb + int i) mod ?n)"
          using ne pos eb by arith
        show ?thesis
          using True ne' by (simp add: cb_contents_def cnt nth_append del: upt_Suc)
      next
        case False
        with i have ii: "i = nat (count cb)" by simp
        then have "(start cb + int i) mod ?n = end_f cb" using e c by simp
        then show ?thesis
          using ii eb len by (simp add: cb_contents_def cnt nth_append del: upt_Suc)
      qed
    qed
    with add ring False show ?thesis by simp
  qed
qed

lemma Add_all_contents:
  assumes "cb_ring cb"
  shows "\<exists>cb'. Add_all cb ms = Inr cb' \<and> cb_ring cb' \<and> size_f cb' = size_f cb \<and>
     cb_contents cb' = drop (length (cb_contents cb @ ms) - nat (size_f cb)) (cb_contents cb @ ms)"
  using assms
proof (induction ms arbitrary: cb)
  case Nil
  then have "count cb \<le> size_f cb" by (simp add: cb_ring_def cb_inv_def)
  with Nil show ?case by (simp add: length_cb_contents)
next
  case (Cons m ms)
  from Add_ring[OF Cons.prems, of m] obtain cb1 where
    a: "Add cb m = Inr cb1" and r: "cb_ring cb1" and sz: "size_f cb1 = size_f cb"
    and ct: "cb_contents cb1 = (if count cb = size_f cb then tl (cb_contents cb) @ [m] else cb_contents cb @ [m])"
    by blast
  from Cons.IH[OF r] obtain cb' where
    b: "Add_all cb1 ms = Inr cb'" and r': "cb_ring cb'" and sz': "size_f cb' = size_f cb1"
    and ct': "cb_contents cb' = drop (length (cb_contents cb1 @ ms) - nat (size_f cb1)) (cb_contents cb1 @ ms)"
    by blast
  have n: "0 < size_f cb" using Cons.prems by (simp add: cb_ring_def cb_inv_def)
  have "cb_contents cb' = drop (length (cb_contents cb @ m # ms) - nat (size_f cb)) (cb_contents cb @ m # ms)"
  proof (cases "count cb = size_f cb")
    case False
    then show ?thesis using ct ct' sz by simp
  next
    case True
    then have len: "length (cb_contents cb) = nat (size_f cb)" by (simp add: length_cb_contents)
    with n obtain x xs where xs: "cb_contents cb = x # xs" by (cases "cb_contents cb") auto
    with len have lxs: "Suc (length xs) = nat (size_f cb)" by simp
    have "cb_contents cb' = drop (length (xs @ m # ms) - nat (size_f cb)) (xs @ m # ms)"
      using ct ct' sz True xs by simp
    also have "\<dots> = drop (length (x # xs @ m # ms) - nat (size_f cb)) (x # xs @ m # ms)"
      using lxs by (simp add: Suc_diff_le)
    finally show ?thesis using xs by simp
  qed
  with a b r' sz sz' show ?case by simp
qed

lemma Add_all_new:
  assumes n: "0 < n"
  shows "\<exists>cb. Add_all \<lparr>messages = replicate (nat n) [], size_f = n, start = 0, end_f = 0, count = 0\<rparr> ms = Inr cb
     \<and> cb_inv cb \<and> cb_contents cb = drop (length ms - nat n) ms"
proof -
  let ?cb0 = "\<lparr>messages = replicate (nat n) [], size_f = n, start = 0, end_f = 0, count = 0\<rparr>"
  have c0: "cb_contents ?cb0 = []" by (simp add: cb_contents_def)
  from Add_all_contents[OF cb_ring_New[OF n], of ms] obtain cb' where
    "Add_all ?cb0 ms = Inr cb'" "cb_ring cb'" "cb_contents cb' = drop (length ms - nat n) ms"
    by (auto simp: c0)
  then show ?thesis by (auto simp: cb_ring_def)
qed

text \<open>
  Claim C3. On a buffer of capacity \<open>n > 0\<close>, after any finite sequence \<open>ms\<close> of \<open>Add\<close>
  calls, \<open>GetAll\<close> returns the last \<open>min n (length ms)\<close> messages of \<open>ms\<close>, in the order
  in which they were added (oldest first).
\<close>

theorem GetAll_most_recent:
  "0 < n \<Longrightarrow>
     history_after n ms = Inr (drop (length ms - nat n) ms) \<and>
     length (drop (length ms - nat n) ms) = min (nat n) (length ms)"
proof -
  assume n: "0 < n"
  from Add_all_new[OF n, of ms] obtain cb where
    "Add_all \<lparr>messages = replicate (nat n) [], size_f = n, start = 0, end_f = 0, count = 0\<rparr> ms = Inr cb"
    "cb_inv cb" "cb_contents cb = drop (length ms - nat n) ms"
    by blast
  then have "history_after n ms = Inr (drop (length ms - nat n) ms)"
    using n by (simp add: history_after_def cb_inv_New GetAll_contents)
  then show ?thesis by auto
qed

text \<open>The scenario of the specification: capacity 5 and the messages m1 to m7.\<close>

theorem GetAll_most_recent_witness:
  "(0::int) < 5 \<and>
   history_after 5 [''m1'', ''m2'', ''m3'', ''m4'', ''m5'', ''m6'', ''m7''] =
     Inr [''m3'', ''m4'', ''m5'', ''m6'', ''m7'']"
  using GetAll_most_recent [of 5 "[''m1'', ''m2'', ''m3'', ''m4'', ''m5'', ''m6'', ''m7'']"]
  by simp

text \<open>
  Claim C10, as stated, fails in its last part: on a buffer of capacity 0 the first
  \<open>Add\<close> panics at the write \<open>cb.messages[cb.end]\<close>, which indexes an empty slice, and
  the modulo is never evaluated.
\<close>

theorem Add_capacity_zero_panic:
  "Add_first 0 ''m'' = Inl IndexOutOfRange \<and> Add_first 0 ''m'' \<noteq> Inl DivideByZero"
  by (simp add: Add_first_def NewCircularBuffer_def make_strings_def Add_def index_set_def)

text \<open>
  Claim C10, amended. A buffer made with a positive capacity satisfies the invariant
  \<open>0 \<le> count \<le> size\<close>, \<open>0 \<le> start < size\<close>, \<open>0 \<le> end < size\<close> (with the backing
  slice of length \<open>size\<close>); \<open>Add\<close> preserves it and \<open>GetAll\<close>, which changes nothing,
  returns: neither indexes the slice out of range. On a buffer of capacity 0, \<open>Add\<close>
  panics with an index out of range.
\<close>

theorem CircularBuffer_invariant:
  "(0 < n \<longrightarrow> (\<exists>cb0. NewCircularBuffer n = Inr cb0 \<and> cb_inv cb0)) \<and>
   (cb_inv cb \<longrightarrow> (\<exists>cb'. Add cb m = Inr cb' \<and> cb_inv cb') \<and> (\<exists>r. GetAll cb = Inr r)) \<and>
   Add_first 0 m = Inl IndexOutOfRange"
proof (intro conjI impI)
  assume "0 < n"
  then show "\<exists>cb0. NewCircularBuffer n = Inr cb0 \<and> cb_inv cb0"
    using cb_ring_New[of n] by (simp add: cb_inv_New cb_ring_def)
next
  assume "cb_inv cb"
  then show "\<exists>cb'. Add cb m = Inr cb' \<and> cb_inv cb'"
    using Add_inv[of cb m] by blast
next
  assume "cb_inv cb"
  then show "\<exists>r. GetAll cb = Inr r"
    by (simp add: GetAll_contents)
next
  show "Add_first 0 m = Inl IndexOutOfRange"
    by (simp add: Add_first_def NewCircularBuffer_def make_strings_def Add_def index_set_def)
qed

theorem CircularBuffer_invariant_witness:
  "(0::int) < 5 \<and>
   cb_inv \<lparr>messages = [''a'', ''b''], size_f = 2, start = 1, end_f = 1, count = 2\<rparr> \<and>
   (\<exists>cb0. NewCircularBuffer 5 = Inr cb0 \<and> cb_inv cb0) \<and>
   (\<exists>cb'. Add \<lparr>messages = [''a'', ''b''], size_f = 2, start = 1, end_f = 1, count = 2\<rparr> ''c'' = Inr cb' \<and> cb_inv cb') \<and>
   (\<exists>r. GetAll \<lparr>messages = [''a'', ''b''], size_f = 2, start = 1, end_f = 1, count = 2\<rparr> = Inr r)"
proof -
  have h: "cb_inv \<lparr>messages = [''a'', ''b''], size_f = 2, start = 1, end_f = 1, count = 2\<rparr>"
    by (simp add: cb_inv_def)
  show ?thesis
    using h CircularBuffer_invariant
      [of 5 "\<lparr>messages = [''a'', ''b''], size_f = 2, start = 1, end_f = 1, count = 2\<rparr>" "''c''"]
    by simp
qed

section \<open>Writing to connections\<close>

text \<open>
Unfolding the handlers on concrete commands.
\<close>

lemmas v2_eval = v2_clients_of_def v2_history_of_def received_def hung_up_def loop_exit_def
  v2_NickName_def v2_Join_def v2_Message_def v2_Quit_def v2_ListRooms_def
  CmdNickname_def CmdJoin_def CmdMsg_def CmdQuit_def CmdRooms_def v2_Server_def
  index_get_def index_set_def slice_from_def go_rem_def make_strings_def
  v2_NewRoom_def NewCircularBuffer_def ChatRoomBufferSize_def GetAll_def GetAll_loop.simps Add_def
  v2_broadcastMessage_def Conn_Write_def Conn_Close_def Client_Error_def Let_def

lemmas chat_eval = chat_members_of_def received_def hung_up_def loop_exit_def
  chat_NickName_def chat_Join_def chat_Message_def chat_Quit_def chat_ListRooms_def
  chat_quitCurrentRoom_def Room_Broadcast_def chat_NewServer_def
  index_get_def slice_from_def Conn_Write_def Conn_Close_def Client_Error_def Client_Message_def Let_def

lemma Conn_Write_fields [simp]:
  "closed (Conn_Write k line s) = closed s"
  "heap (Conn_Write k line s) = heap s"
  "Rooms (Conn_Write k line s) = Rooms s"
  "clients (Conn_Write k line s) = clients s"
  "next_ref (Conn_Write k line s) = next_ref s"
  by (simp_all add: Conn_Write_def)

text \<open>
  A loop that writes one line to each of pairwise distinct connections appends the line
  once to every open one of them, whatever the order of the enumeration.
\<close>

lemma fold_Conn_Write:
  "distinct xs \<Longrightarrow>
     fold (\<lambda>k s'. if P k then Conn_Write k line s' else s') xs s =
     s\<lparr>written := (\<lambda>k. if k \<in> set xs \<and> P k \<and> \<not> closed s k then written s k @ [line] else written s k)\<rparr>"
proof (induction xs arbitrary: s)
  case Nil
  show ?case by simp
next
  case (Cons x xs)
  then have d: "distinct xs" and nx: "x \<notin> set xs" by simp_all
  show ?case
    using nx by (auto simp: Cons.IH[OF d] Conn_Write_def fun_eq_iff)
qed

lemma fold_Conn_Write_all:
  "distinct xs \<Longrightarrow>
     fold (\<lambda>k s'. Conn_Write k line s') xs s =
     s\<lparr>written := (\<lambda>k. if k \<in> set xs \<and> \<not> closed s k then written s k @ [line] else written s k)\<rparr>"
  using fold_Conn_Write[of xs "\<lambda>k. True" line s] by simp

lemma fold_Conn_Write_fields [simp]:
  "heap (fold (\<lambda>k s'. Conn_Write k line s') xs s) = heap s"
  "Rooms (fold (\<lambda>k s'. Conn_Write k line s') xs s) = Rooms s"
  "clients (fold (\<lambda>k s'. Conn_Write k line s') xs s) = clients s"
  "closed (fold (\<lambda>k s'. Conn_Write k line s') xs s) = closed s"
  by (induction xs arbitrary: s) simp_all

lemma fold_replay:
  "fold (\<lambda>msg s'. Conn_Write c (f msg) s') msgs s =
     (if closed s c then s else s\<lparr>written := (written s)(c := written s c @ map f msgs)\<rparr>)"
  by (induction msgs arbitrary: s) (auto simp: Conn_Write_def)


lemma index_get_1: "2 \<le> length args \<Longrightarrow> index_get args 1 = Inr (args ! 1)"
  by (simp add: index_get_def)

section \<open>Broadcast\<close>

lemma Room_Broadcast_eq:
  "distinct (chat_Members (heap s r)) \<Longrightarrow>
   Room_Broadcast (Some r) sender msg s =
     Inr (s\<lparr>written := (\<lambda>k. if k \<in> set (chat_Members (heap s r)) \<and> k \<noteq> sender \<and> \<not> closed s k
                              then written s k @ [''> '' @ msg @ ''\<newline>''] else written s k)\<rparr>)"
  using fold_Conn_Write[of "chat_Members (heap s r)" "\<lambda>k. k \<noteq> sender" "''> '' @ msg @ ''\<newline>''" s]
  unfolding Room_Broadcast_def Client_Message_def by simp

lemma Room_Broadcast_fields:
  "Room_Broadcast (Some r) sender msg s = Inr s' \<Longrightarrow>
     heap s' = heap s \<and> Rooms s' = Rooms s \<and> clients s' = clients s \<and> closed s' = closed s"
proof -
  have "\<And>s. heap (fold (\<lambda>addr s'. if addr \<noteq> sender then Client_Message addr msg s' else s') xs s) = heap s \<and>
        Rooms (fold (\<lambda>addr s'. if addr \<noteq> sender then Client_Message addr msg s' else s') xs s) = Rooms s \<and>
        clients (fold (\<lambda>addr s'. if addr \<noteq> sender then Client_Message addr msg s' else s') xs s) = clients s \<and>
        closed (fold (\<lambda>addr s'. if addr \<noteq> sender then Client_Message addr msg s' else s') xs s) = closed s" for xs
    by (induction xs) (simp_all add: Client_Message_def)
  then show "Room_Broadcast (Some r) sender msg s = Inr s' \<Longrightarrow> ?thesis"
    by (auto simp: Room_Broadcast_def)
qed

lemma Room_Broadcast_sender:
  "Room_Broadcast (Some r) sender msg s = Inr s' \<Longrightarrow> written s' sender = written s sender"
proof -
  have "\<And>s. written (fold (\<lambda>addr s'. if addr \<noteq> sender then Client_Message addr msg s' else s') xs s) sender
          = written s sender" for xs
    by (induction xs) (simp_all add: Client_Message_def Conn_Write_def)
  then show "Room_Broadcast (Some r) sender msg s = Inr s' \<Longrightarrow> ?thesis"
    by (auto simp: Room_Broadcast_def)
qed

lemma Room_Broadcast_returns: "\<exists>s'. Room_Broadcast (Some r) sender msg s = Inr s'"
  by (simp add: Room_Broadcast_def)

lemma v2_broadcastMessage_eq:
  "distinct (v2_Clients (heap s room)) \<Longrightarrow>
   v2_broadcastMessage room msg s =
     s\<lparr>written := (\<lambda>k. if k \<in> set (v2_Clients (heap s room)) \<and> \<not> closed s k
                         then written s k @ [msg @ ''\<newline>''] else written s k)\<rparr>"
  using fold_Conn_Write_all[of "v2_Clients (heap s room)" "msg @ ''\<newline>''" s]
  by (simp add: v2_broadcastMessage_def)

lemma v2_broadcastMessage_fields [simp]:
  "heap (v2_broadcastMessage room msg s) = heap s"
  "Rooms (v2_broadcastMessage room msg s) = Rooms s"
  "clients (v2_broadcastMessage room msg s) = clients s"
  "closed (v2_broadcastMessage room msg s) = closed s"
  by (simp_all add: v2_broadcastMessage_def)

section \<open>The chatv2 processor never exits\<close>

text \<open>
  Every handler of chatv2 checks the length of its arguments before it indexes them and
  keeps the registry invariant, so \<open>Run\<close> returns on every list of commands.
\<close>

lemma v2_rooms_ok_unchanged [simp]:
  "v2_rooms_ok (Conn_Write k line s) = v2_rooms_ok s"
  "v2_rooms_ok (Conn_Close k s) = v2_rooms_ok s"
  "v2_rooms_ok (v2_broadcastMessage room msg s) = v2_rooms_ok s"
  "v2_rooms_ok (fold (\<lambda>k s'. Conn_Write k line s') xs s) = v2_rooms_ok s"
  "v2_rooms_ok (s\<lparr>clients := cs\<rparr>) = v2_rooms_ok s"
  "v2_rooms_ok (s\<lparr>written := w\<rparr>) = v2_rooms_ok s"
  by (simp_all add: v2_rooms_ok_def Conn_Close_def)

lemma v2_NickName_ok:
  "v2_rooms_ok s \<Longrightarrow> \<exists>s'. v2_NickName c args s = Inr s' \<and> v2_rooms_ok s'"
  by (cases "length args < 2")
     (simp_all add: v2_NickName_def index_get_def Client_Error_def Let_def)

lemma v2_ListRooms_ok:
  "v2_rooms_ok s \<Longrightarrow> \<exists>s'. v2_ListRooms c args s = Inr s' \<and> v2_rooms_ok s'"
  by (simp add: v2_ListRooms_def Let_def)

lemma v2_Message_ok:
  assumes ok: "v2_rooms_ok s"
  shows "\<exists>s'. v2_Message c args s = Inr s' \<and> v2_rooms_ok s'"
proof (cases "length args < 2")
  case True
  with ok show ?thesis by (simp add: v2_Message_def Client_Error_def)
next
  case False
  then have len: "2 \<le> length args" by simp
  show ?thesis
  proof (cases "map_of (Rooms s) (args ! 1)")
    case None
    with ok len show ?thesis
      by (simp add: v2_Message_def index_get_1 slice_from_def Client_Error_def)
  next
    case (Some room)
    then have "(args ! 1, room) \<in> set (Rooms s)" by (rule map_of_SomeD)
    with ok have inv: "cb_inv (v2_Messages (heap s room))" by (auto simp: v2_rooms_ok_def)
    from Add_inv[OF inv] obtain cb' where
      a: "Add (v2_Messages (heap s room))
            (NickName (clients s c) @ '': '' @ strings_Join (drop 2 args) '' '') = Inr cb'"
      and inv': "cb_inv cb'" by blast
    have "v2_rooms_ok (s\<lparr>heap := (heap s)(room := (heap s room)\<lparr>v2_Messages := cb'\<rparr>)\<rparr>)"
      using ok inv' by (auto simp: v2_rooms_ok_def)
    then show ?thesis
      using len Some a
      by (simp add: v2_Message_def index_get_1 slice_from_def Let_def)
  qed
qed

lemma v2_Join_ok:
  assumes ok: "v2_rooms_ok s"
  shows "\<exists>s'. v2_Join c args s = Inr s' \<and> v2_rooms_ok s'"
proof (cases "length args < 2")
  case True
  with ok show ?thesis by (simp add: v2_Join_def Client_Error_def)
next
  case False
  then have len: "2 \<le> length args" by simp
  show ?thesis
  proof (cases "map_of (Rooms s) (args ! 1)")
    case None
    let ?new = "\<lparr>v2_Name = args ! 1, v2_Clients = [c],
                  v2_Messages = \<lparr>messages = replicate 5 [], size_f = 5, start = 0, end_f = 0, count = 0\<rparr>\<rparr>"
    have "v2_rooms_ok (s\<lparr>next_ref := Suc (next_ref s), Rooms := Rooms s @ [(args ! 1, next_ref s)],
               heap := (heap s)(next_ref s := ?new),
               clients := (clients s)(c := (clients s c)\<lparr>Room := Some (next_ref s)\<rparr>)\<rparr>)"
      using ok by (auto simp: v2_rooms_ok_def cb_inv_def)
    then show ?thesis
      using len None
      by (simp add: v2_Join_def index_get_1 v2_NewRoom_def NewCircularBuffer_def make_strings_def
          ChatRoomBufferSize_def GetAll_def GetAll_loop.simps Let_def)
  next
    case (Some r)
    then have "(args ! 1, r) \<in> set (Rooms s)" by (rule map_of_SomeD)
    with ok have inv: "cb_inv (v2_Messages (heap s r))" by (auto simp: v2_rooms_ok_def)
    have "v2_rooms_ok (s\<lparr>heap := (heap s)(r := (heap s r)\<lparr>v2_Clients := List.insert c (v2_Clients (heap s r))\<rparr>),
               clients := (clients s)(c := (clients s c)\<lparr>Room := Some r\<rparr>)\<rparr>)"
      using ok by (auto simp: v2_rooms_ok_def distinct_insert)
    then show ?thesis
      using len Some inv
      by (simp add: v2_Join_def index_get_1 GetAll_contents fold_replay Let_def)
  qed
qed

lemma v2_Quit_ok:
  assumes ok: "v2_rooms_ok s"
  shows "\<exists>s'. v2_Quit c args s = Inr s' \<and> v2_rooms_ok s'"
proof (cases "Room (clients s c)")
  case None
  with ok show ?thesis by (simp add: v2_Quit_def)
next
  case (Some room)
  have "v2_rooms_ok (s\<lparr>heap := (heap s)(room := (heap s room)\<lparr>v2_Clients := removeAll c (v2_Clients (heap s room))\<rparr>)\<rparr>)"
    using ok by (auto simp: v2_rooms_ok_def distinct_removeAll)
  then show ?thesis
    using Some by (simp add: v2_Quit_def Let_def)
qed

lemma v2_Server_ok: "v2_rooms_ok v2_Server"
  by (simp add: v2_rooms_ok_def v2_Server_def)

lemma v2_Run_returns:
  "v2_rooms_ok s \<Longrightarrow> \<exists>s'. v2_Run cmds s = Inr s' \<and> v2_rooms_ok s'"
proof (induction cmds arbitrary: s)
  case Nil
  then show ?case by simp
next
  case (Cons cmd cmds)
  let ?step = "if ID cmd = CmdNickname then v2_NickName (Client cmd) (Args cmd) s
            else if ID cmd = CmdRooms then v2_ListRooms (Client cmd) (Args cmd) s
            else if ID cmd = CmdJoin then v2_Join (Client cmd) (Args cmd) s
            else if ID cmd = CmdMsg then v2_Message (Client cmd) (Args cmd) s
            else if ID cmd = CmdQuit then v2_Quit (Client cmd) (Args cmd) s
            else Inr s"
  have "\<exists>s1. ?step = Inr s1 \<and> v2_rooms_ok s1"
    using Cons.prems v2_NickName_ok v2_ListRooms_ok v2_Join_ok v2_Message_ok v2_Quit_ok
    by auto
  then obtain s1 where s1: "?step = Inr s1" and ok1: "v2_rooms_ok s1" by blast
  from Cons.IH[OF ok1] obtain s' where "v2_Run cmds s1 = Inr s'" "v2_rooms_ok s'" by blast
  with s1 show ?case by simp
qed

text \<open>
  Claim C4 fails in package \<open>chat\<close>. \<open>NickName\<close> and \<open>Join\<close> index \<open>args[1]\<close> without a
  check, and \<open>Message\<close> reports the missing room but goes on to broadcast on the \<open>nil\<close>
  room: on \<open>/name\<close> or \<open>/join\<close> without an argument, and on \<open>/msg hi\<close> from a client
  that has joined no room, the handler panics and the processor loop exits.
\<close>

theorem chat_Run_exits_on_malformed_command:
  "loop_exit (chat_Run [Command CMD_NICKNAME 1 [''/name'']] chat_NewServer) = Some IndexOutOfRange \<and>
   loop_exit (chat_Run [Command CMD_JOIN 1 [''/join'']] chat_NewServer) = Some IndexOutOfRange \<and>
   loop_exit (chat_Run [Command CMD_MSG 1 [''/msg'', ''hi'']] chat_NewServer) = Some NilDereference"
  by (simp add: chat_eval)

section \<open>SetNickname\<close>

lemma v2_NickName_missing_argument:
  "length args < 2 \<Longrightarrow>
     v2_NickName c args s = Inr (Client_Error c ''nickname is required. usage: /name NEW_NICKNAME'' s)"
  by (simp add: v2_NickName_def)

lemma v2_NickName_sets:
  "2 \<le> length args \<Longrightarrow>
     v2_NickName c args s =
       Inr (Conn_Write c (''Nickname changed to: '' @ args ! 1 @ ''\<newline>'')
              (s\<lparr>clients := (clients s)(c := (clients s c)\<lparr>NickName := args ! 1\<rparr>)\<rparr>))"
  by (simp add: v2_NickName_def index_get_1 Let_def)

text \<open>
  Claim C6 fails in package \<open>chat\<close>: on \<open>/name\<close> without an argument \<open>NickName\<close> panics
  at \<open>args[1]\<close>; the issuer receives no usage error. (chatv2 does as the claim says, by
  the two lemmas above.)
\<close>

theorem chat_NickName_missing_argument_panics:
  "loop_exit (chat_NickName 1 [''/name''] chat_NewServer) = Some IndexOutOfRange \<and>
   received 1 (chat_NickName 1 [''/name''] chat_NewServer) = None"
  by (simp add: chat_eval)

section \<open>Join\<close>

lemma v2_history_ok:
  assumes "v2_rooms_ok s"
  shows "v2_history name s =
     Inr (case map_of (Rooms s) name of None \<Rightarrow> [] | Some r \<Rightarrow> cb_contents (v2_Messages (heap s r)))"
proof (cases "map_of (Rooms s) name")
  case None
  then show ?thesis by (simp add: v2_history_def)
next
  case (Some r)
  then have "(name, r) \<in> set (Rooms s)" by (rule map_of_SomeD)
  with assms have "cb_inv (v2_Messages (heap s r))" by (auto simp: v2_rooms_ok_def)
  with Some show ?thesis by (simp add: v2_history_def GetAll_contents)
qed

lemma v2_Join_eq:
  assumes len: "2 \<le> length args" and ok: "v2_rooms_ok s" and h: "v2_history (args ! 1) s = Inr hist"
  shows "\<exists>s3. v2_Join c args s =
       Inr (v2_broadcastMessage (v2_room_of (args ! 1) s) (NickName (clients s c) @ '' joined the room'')
              (fold (\<lambda>msg s'. Conn_Write c (msg @ ''\<newline>'') s') hist s3)) \<and>
     written s3 = written s \<and> closed s3 = closed s \<and> clients s3 c = (clients s c)\<lparr>Room := Some (v2_room_of (args ! 1) s)\<rparr> \<and>
     c \<in> set (v2_Clients (heap s3 (v2_room_of (args ! 1) s))) \<and>
     distinct (v2_Clients (heap s3 (v2_room_of (args ! 1) s)))"
proof (cases "map_of (Rooms s) (args ! 1)")
  case None
  have hist: "hist = []" using h None by (simp add: v2_history_def)
  let ?new = "\<lparr>v2_Name = args ! 1, v2_Clients = [c],
                v2_Messages = \<lparr>messages = replicate 5 [], size_f = 5, start = 0, end_f = 0, count = 0\<rparr>\<rparr>"
  let ?s3 = "s\<lparr>next_ref := Suc (next_ref s), Rooms := Rooms s @ [(args ! 1, next_ref s)],
               heap := (heap s)(next_ref s := ?new),
               clients := (clients s)(c := (clients s c)\<lparr>Room := Some (next_ref s)\<rparr>)\<rparr>"
  show ?thesis
    using len None hist
    by (intro exI[of _ ?s3])
       (simp add: v2_Join_def index_get_1 v2_NewRoom_def NewCircularBuffer_def make_strings_def
          ChatRoomBufferSize_def v2_room_of_def GetAll_def GetAll_loop.simps)
next
  case (Some r)
  then have "(args ! 1, r) \<in> set (Rooms s)" by (rule map_of_SomeD)
  with ok have inv: "cb_inv (v2_Messages (heap s r))" and d: "distinct (v2_Clients (heap s r))"
    by (auto simp: v2_rooms_ok_def)
  have g: "GetAll (v2_Messages (heap s r)) = Inr hist" using h Some by (simp add: v2_history_def)
  let ?s3 = "s\<lparr>heap := (heap s)(r := (heap s r)\<lparr>v2_Clients := List.insert c (v2_Clients (heap s r))\<rparr>),
               clients := (clients s)(c := (clients s c)\<lparr>Room := Some r\<rparr>)\<rparr>"
  show ?thesis
    using len Some g d
    by (intro exI[of _ ?s3])
       (simp add: v2_Join_def index_get_1 v2_room_of_def distinct_insert fold_replay Let_def)
qed

text \<open>
  In chatv2, a \<open>Join\<close> that names a room, by a client whose connection is open,
  returns; it writes the history of the room to the joiner, line by line, and then
  broadcasts the join notice, of which the joiner receives its own copy last.
\<close>

lemma v2_Join_written:
  assumes "2 \<le> length args" and "\<not> closed s c" and "v2_rooms_ok s"
  shows "\<exists>hist s4.
     v2_history (args ! 1) s = Inr hist \<and>
     v2_Join c args s =
       Inr (v2_broadcastMessage (v2_room_of (args ! 1) s) (NickName (clients s c) @ '' joined the room'') s4) \<and>
     written s4 = (written s)(c := written s c @ map (\<lambda>m. m @ ''\<newline>'') hist) \<and>
     written (v2_broadcastMessage (v2_room_of (args ! 1) s) (NickName (clients s c) @ '' joined the room'') s4) c =
       written s c @ map (\<lambda>m. m @ ''\<newline>'') hist @ [NickName (clients s c) @ '' joined the room\<newline>'']"
proof -
  define room where "room = v2_room_of (args ! 1) s"
  define notice where "notice = NickName (clients s c) @ '' joined the room''"
  from v2_history_ok[OF assms(3)] obtain hist where h: "v2_history (args ! 1) s = Inr hist"
    by blast
  from v2_Join_eq[OF assms(1) assms(3) h, of c] obtain s3 where
    j: "v2_Join c args s = Inr (v2_broadcastMessage room notice
          (fold (\<lambda>msg s'. Conn_Write c (msg @ ''\<newline>'') s') hist s3))"
    and w: "written s3 = written s" and cl: "closed s3 = closed s"
    and m: "c \<in> set (v2_Clients (heap s3 room))" and d: "distinct (v2_Clients (heap s3 room))"
    unfolding room_def notice_def by blast
  define s4 where "s4 = fold (\<lambda>msg s'. Conn_Write c (msg @ ''\<newline>'') s') hist s3"
  have s4: "s4 = s3\<lparr>written := (written s3)(c := written s3 c @ map (\<lambda>m. m @ ''\<newline>'') hist)\<rparr>"
    using assms(2) cl by (simp add: s4_def fold_replay)
  have w4: "written s4 = (written s)(c := written s c @ map (\<lambda>m. m @ ''\<newline>'') hist)"
    using w by (simp add: s4)
  have d4: "distinct (v2_Clients (heap s4 room))" and m4: "c \<in> set (v2_Clients (heap s4 room))"
    and c4: "\<not> closed s4 c"
    using d m cl assms(2) by (simp_all add: s4)
  have "written (v2_broadcastMessage room notice s4) c =
      written s c @ map (\<lambda>m. m @ ''\<newline>'') hist @ [notice @ ''\<newline>'']"
    using m4 c4 w4 by (simp add: v2_broadcastMessage_eq[OF d4])
  with h j w4 show ?thesis
    unfolding room_def notice_def s4_def[symmetric]
    by (intro exI[of _ hist] exI[of _ s4]) simp
qed

text \<open>
  In package \<open>chat\<close>, all that \<open>quitCurrentRoom\<close> and \<open>Join\<close> write goes to other
  connections, but for the welcome that \<open>Join\<close> writes to the joiner last.
\<close>

lemma chat_quitCurrentRoom_sender:
  "\<exists>s'. chat_quitCurrentRoom c s = Inr s' \<and> written s' c = written s c \<and> closed s' = closed s \<and>
     clients s' = clients s"
proof (cases "Room (clients s c)")
  case None
  then show ?thesis by (simp add: chat_quitCurrentRoom_def)
next
  case (Some p)
  let ?s1 = "s\<lparr>heap := (heap s)(p := (heap s p)\<lparr>chat_Members := removeAll c (chat_Members (heap s p))\<rparr>)\<rparr>"
  obtain s' where b: "Room_Broadcast (Some p) c (NickName (clients s c) @ '' has left the chat'') ?s1 = Inr s'"
    using Room_Broadcast_returns by blast
  from Room_Broadcast_sender[OF b] Room_Broadcast_fields[OF b]
  have "written s' c = written s c" "closed s' = closed s" "clients s' = clients s" by simp_all
  moreover have "chat_quitCurrentRoom c s = Inr s'"
    using Some b by (simp add: chat_quitCurrentRoom_def Let_def)
  ultimately show ?thesis by simp
qed

lemma chat_Join_steps:
  assumes "written s2 = written s" and "closed s2 = closed s"
  shows "\<exists>s3 s5. chat_quitCurrentRoom c s2 = Inr s3 \<and>
     Room_Broadcast (Some r) c
       (NickName (clients (s3\<lparr>clients := (clients s3)(c := (clients s3 c)\<lparr>Room := Some r\<rparr>)\<rparr>) c) @ '' has joined the room'')
       (s3\<lparr>clients := (clients s3)(c := (clients s3 c)\<lparr>Room := Some r\<rparr>)\<rparr>) = Inr s5 \<and>
     written s5 c = written s c \<and> closed s5 = closed s"
proof -
  from chat_quitCurrentRoom_sender[of c s2] obtain s3 where
    q: "chat_quitCurrentRoom c s2 = Inr s3" and f3: "written s3 c = written s c" "closed s3 = closed s"
    using assms by auto
  let ?s4 = "s3\<lparr>clients := (clients s3)(c := (clients s3 c)\<lparr>Room := Some r\<rparr>)\<rparr>"
  obtain s5 where b: "Room_Broadcast (Some r) c (NickName (clients ?s4 c) @ '' has joined the room'') ?s4 = Inr s5"
    using Room_Broadcast_returns by blast
  from Room_Broadcast_sender[OF b] Room_Broadcast_fields[OF b]
  have "written s5 c = written s c" "closed s5 = closed s"
    using f3 by simp_all
  with q b show ?thesis by blast
qed

lemma chat_Join_joiner:
  assumes len: "2 \<le> length args"
  shows "\<exists>s5 name. chat_Join c args s = Inr (Client_Message c (''Welcome to '' @ name) s5) \<and>
     written s5 c = written s c \<and> closed s5 = closed s"
proof (cases "map_of (Rooms s) (args ! 1)")
  case None
  let ?r = "next_ref s"
  let ?s1 = "s\<lparr>heap := (heap s)(next_ref s := \<lparr>chat_Name = args ! 1, chat_Members = []\<rparr>),
                next_ref := Suc (next_ref s), Rooms := Rooms s @ [(args ! 1, next_ref s)]\<rparr>"
  let ?s2 = "?s1\<lparr>heap := (heap ?s1)(?r := (heap ?s1 ?r)\<lparr>chat_Members := List.insert c (chat_Members (heap ?s1 ?r))\<rparr>)\<rparr>"
  from chat_Join_steps[of ?s2 s c ?r] obtain s3 s5 where
    q: "chat_quitCurrentRoom c ?s2 = Inr s3"
    and b: "Room_Broadcast (Some ?r) c
       (NickName (clients (s3\<lparr>clients := (clients s3)(c := (clients s3 c)\<lparr>Room := Some ?r\<rparr>)\<rparr>) c) @ '' has joined the room'')
       (s3\<lparr>clients := (clients s3)(c := (clients s3 c)\<lparr>Room := Some ?r\<rparr>)\<rparr>) = Inr s5"
    and f: "written s5 c = written s c" "closed s5 = closed s"
    by auto
  have "chat_Join c args s = Inr (Client_Message c (''Welcome to '' @ chat_Name (heap s5 ?r)) s5)"
    using len None q b by (simp add: chat_Join_def index_get_1 Let_def)
  with f show ?thesis by blast
next
  case (Some r)
  let ?s2 = "s\<lparr>heap := (heap s)(r := (heap s r)\<lparr>chat_Members := List.insert c (chat_Members (heap s r))\<rparr>)\<rparr>"
  from chat_Join_steps[of ?s2 s c r] obtain s3 s5 where
    q: "chat_quitCurrentRoom c ?s2 = Inr s3"
    and b: "Room_Broadcast (Some r) c
       (NickName (clients (s3\<lparr>clients := (clients s3)(c := (clients s3 c)\<lparr>Room := Some r\<rparr>)\<rparr>) c) @ '' has joined the room'')
       (s3\<lparr>clients := (clients s3)(c := (clients s3 c)\<lparr>Room := Some r\<rparr>)\<rparr>) = Inr s5"
    and f: "written s5 c = written s c" "closed s5 = closed s"
    by auto
  have "chat_Join c args s = Inr (Client_Message c (''Welcome to '' @ chat_Name (heap s5 r)) s5)"
    using len Some q b by (simp add: chat_Join_def index_get_1 Let_def)
  with f show ?thesis by blast
qed

text \<open>
  Claim C5, as stated, fails in package \<open>chat\<close>, whose rooms keep no history: client 1
  sends \<open>hello\<close> to the room \<open>lobby\<close>, which client 2 receives; client 3, who joins
  afterwards, is shown nothing of it and receives the welcome only.
\<close>

theorem chat_Join_replays_nothing:
  "received 2
     (chat_Run [Command CMD_JOIN 1 [''/join'', ''lobby''], Command CMD_JOIN 2 [''/join'', ''lobby''],
                Command CMD_MSG 1 [''/msg'', ''hello''], Command CMD_JOIN 3 [''/join'', ''lobby'']]
        chat_NewServer) =
     Some [''> Welcome to lobby\<newline>'', ''> Anonymous : hello\<newline>'',
           ''> Anonymous has joined the room\<newline>''] \<and>
   received 3
     (chat_Run [Command CMD_JOIN 1 [''/join'', ''lobby''], Command CMD_JOIN 2 [''/join'', ''lobby''],
                Command CMD_MSG 1 [''/msg'', ''hello''], Command CMD_JOIN 3 [''/join'', ''lobby'']]
        chat_NewServer) =
     Some [''> Welcome to lobby\<newline>'']"
  by (simp add: chat_eval)

text \<open>
  Claim C5, amended. In chatv2, a \<open>Join\<close> that names a room, by a client whose connection
  is open, returns; it writes to the joiner the messages that \<open>GetAll\<close> gives for the
  room's buffer (none for a room that did not exist), each followed by a newline, in
  that order; only then does it broadcast the join notice. When the broadcast starts,
  the joiner has received the whole replay and no other connection has been written to;
  the joiner's own copy of the notice comes after the replay. In package \<open>chat\<close> a room
  keeps no history and a \<open>Join\<close> that names a room replays nothing: it returns, and the
  one line it writes to the joiner is the welcome, as its last write.
\<close>

theorem Join_replays_history:
  assumes "2 \<le> length args" and "\<not> closed s c" and "v2_rooms_ok s"
  shows "(\<exists>hist s4.
     v2_history (args ! 1) s = Inr hist \<and>
     v2_Join c args s =
       Inr (v2_broadcastMessage (v2_room_of (args ! 1) s) (NickName (clients s c) @ '' joined the room'') s4) \<and>
     written s4 = (written s)(c := written s c @ map (\<lambda>m. m @ ''\<newline>'') hist) \<and>
     written (v2_broadcastMessage (v2_room_of (args ! 1) s) (NickName (clients s c) @ '' joined the room'') s4) c =
       written s c @ map (\<lambda>m. m @ ''\<newline>'') hist @ [NickName (clients s c) @ '' joined the room\<newline>'']) \<and>
   (\<exists>t5 name. chat_Join c args t = Inr (Client_Message c (''Welcome to '' @ name) t5) \<and>
      written t5 c = written t c \<and> closed t5 = closed t)"
  using v2_Join_written[OF assms] chat_Join_joiner[OF assms(1)] by blast

theorem Join_replays_history_witness:
  "2 \<le> length [''/join'', ''lobby''] \<and> \<not> closed v2_lobby 3 \<and> v2_rooms_ok v2_lobby \<and>
   v2_history ''lobby'' v2_lobby = Inr [''Anonymous: hello''] \<and>
   received 3 (v2_Join 3 [''/join'', ''lobby''] v2_lobby) =
     Some [''Anonymous: hello\<newline>'', ''Anonymous joined the room\<newline>''] \<and>
   (\<exists>name. received 3 (chat_Join 3 [''/join'', ''lobby''] chat_lobby) =
     Some [''> Welcome to '' @ name @ ''\<newline>''])"
proof -
  have h1: "2 \<le> length [''/join'', ''lobby'']" by simp
  have h2: "\<not> closed v2_lobby 3" by code_simp
  have h3: "v2_rooms_ok v2_lobby" by code_simp
  have e1: "v2_history ''lobby'' v2_lobby = Inr [''Anonymous: hello'']" by code_simp
  have e2: "written v2_lobby 3 = []" by code_simp
  have e3: "NickName (clients v2_lobby 3) = ''Anonymous''" by code_simp
  have e4: "written chat_lobby 3 = []" by code_simp
  have e5: "\<not> closed chat_lobby 3" by code_simp
  note inst = Join_replays_history[OF h1 h2 h3, of chat_lobby]
  from inst e1 e2 e3
  have a: "received 3 (v2_Join 3 [''/join'', ''lobby''] v2_lobby) =
     Some [''Anonymous: hello\<newline>'', ''Anonymous joined the room\<newline>'']"
    by (auto simp: received_def)
  from inst obtain t5 name where
    "chat_Join 3 [''/join'', ''lobby''] chat_lobby = Inr (Client_Message 3 (''Welcome to '' @ name) t5)"
    "written t5 3 = written chat_lobby 3" "closed t5 = closed chat_lobby"
    by blast
  with e4 e5 have "received 3 (chat_Join 3 [''/join'', ''lobby''] chat_lobby) =
     Some [''> Welcome to '' @ name @ ''\<newline>'']"
    by (simp add: received_def Client_Message_def Conn_Write_def)
  then have b: "\<exists>name. received 3 (chat_Join 3 [''/join'', ''lobby''] chat_lobby) =
     Some [''> Welcome to '' @ name @ ''\<newline>'']" by blast
  from h1 h2 h3 e1 a b show ?thesis by blast
qed

text \<open>
  In package \<open>chat\<close>, a \<open>Join\<close> to another room takes the client out of the members of
  its old room.
\<close>

lemma chat_Join_moves:
  assumes len: "2 \<le> length args" and a: "Room (clients s c) = Some a"
    and b: "map_of (Rooms s) (args ! 1) = Some b" and ab: "a \<noteq> b"
  shows "\<exists>s'. chat_Join c args s = Inr s' \<and> c \<notin> set (chat_Members (heap s' a)) \<and>
     c \<in> set (chat_Members (heap s' b)) \<and> Room (clients s' c) = Some b"
proof -
  let ?s2 = "s\<lparr>heap := (heap s)(b := (heap s b)\<lparr>chat_Members := List.insert c (chat_Members (heap s b))\<rparr>)\<rparr>"
  let ?s2' = "?s2\<lparr>heap := (heap ?s2)(a := (heap ?s2 a)\<lparr>chat_Members := removeAll c (chat_Members (heap ?s2 a))\<rparr>)\<rparr>"
  obtain s3 where q: "chat_quitCurrentRoom c ?s2 = Inr s3"
    using a by (simp add: chat_quitCurrentRoom_def Room_Broadcast_def Let_def)
  then have "Room_Broadcast (Some a) c (NickName (clients ?s2' c) @ '' has left the chat'') ?s2' = Inr s3"
    using a by (simp add: chat_quitCurrentRoom_def Let_def)
  from Room_Broadcast_fields[OF this]
  have f3: "heap s3 = heap ?s2'" "clients s3 = clients s" by simp_all
  let ?s4 = "s3\<lparr>clients := (clients s3)(c := (clients s3 c)\<lparr>Room := Some b\<rparr>)\<rparr>"
  obtain s5 where j: "Room_Broadcast (Some b) c (NickName (clients ?s4 c) @ '' has joined the room'') ?s4 = Inr s5"
    by (simp add: Room_Broadcast_def)
  from Room_Broadcast_fields[OF this]
  have f5: "heap s5 = heap s3" "clients s5 = clients ?s4" by simp_all
  have "chat_Join c args s = Inr (Client_Message c (''Welcome to '' @ chat_Name (heap s5 b)) s5)"
    using len b q j by (simp add: chat_Join_def index_get_1 Let_def)
  then show ?thesis
    using f5 f3 ab by (simp add: Client_Message_def)
qed

text \<open>
  Claim C1 fails in chatv2: \<open>Join\<close> never removes the client from the room it was in.
  Alice (1) and Bob (2) join room A, Alice joins room B, Bob writes to A: Alice is still
  a client of A, gets no notice of leaving, and receives Bob's message.
\<close>

theorem v2_Join_keeps_old_membership:
  "v2_clients_of ''A''
     (v2_Run [Command CmdNickname 1 [''/name'', ''alice''], Command CmdJoin 1 [''/join'', ''A''],
              Command CmdNickname 2 [''/name'', ''bob''], Command CmdJoin 2 [''/join'', ''A''],
              Command CmdJoin 1 [''/join'', ''B''], Command CmdMsg 2 [''/msg'', ''A'', ''hi'']] v2_Server) =
     Some [2, 1] \<and>
   received 1
     (v2_Run [Command CmdNickname 1 [''/name'', ''alice''], Command CmdJoin 1 [''/join'', ''A''],
              Command CmdNickname 2 [''/name'', ''bob''], Command CmdJoin 2 [''/join'', ''A''],
              Command CmdJoin 1 [''/join'', ''B''], Command CmdMsg 2 [''/msg'', ''A'', ''hi'']] v2_Server) =
     Some [''Nickname changed to: alice\<newline>'', ''alice joined the room\<newline>'',
           ''bob joined the room\<newline>'', ''alice joined the room\<newline>'', ''bob: hi\<newline>''] \<and>
   received 2
     (v2_Run [Command CmdNickname 1 [''/name'', ''alice''], Command CmdJoin 1 [''/join'', ''A''],
              Command CmdNickname 2 [''/name'', ''bob''], Command CmdJoin 2 [''/join'', ''A''],
              Command CmdJoin 1 [''/join'', ''B''], Command CmdMsg 2 [''/msg'', ''A'', ''hi'']] v2_Server) =
     Some [''Nickname changed to: bob\<newline>'', ''bob joined the room\<newline>'', ''bob: hi\<newline>'']"
  by (simp add: v2_eval)

section \<open>SendMessage\<close>

lemma v2_Message_missing_room:
  "length args < 2 \<Longrightarrow>
     v2_Message c args s = Inr (Client_Error c ''message is required. usage: /msg ROOM MESSAGE'' s)"
  by (simp add: v2_Message_def)



text \<open>
  Claim C7 fails in chatv2: \<open>Message\<close> checks \<open>len(args) < 2\<close>, so \<open>/msg general\<close> with no
  text passes the check that reports "message is required". The empty message is
  appended to the history of the room and broadcast, and the issuer gets no error.
\<close>

theorem v2_Message_without_text_is_broadcast:
  "v2_history_of ''general''
     (v2_Run [Command CmdJoin 1 [''/join'', ''general''], Command CmdMsg 2 [''/msg'', ''general'']] v2_Server) =
     Some [''Anonymous: ''] \<and>
   received 1
     (v2_Run [Command CmdJoin 1 [''/join'', ''general''], Command CmdMsg 2 [''/msg'', ''general'']] v2_Server) =
     Some [''Anonymous joined the room\<newline>'', ''Anonymous: \<newline>''] \<and>
   received 2
     (v2_Run [Command CmdJoin 1 [''/join'', ''general''], Command CmdMsg 2 [''/msg'', ''general'']] v2_Server) =
     Some []"
  by (simp add: v2_eval)

text \<open>
  Claim C8. In chatv2, a \<open>Message\<close> that names a room absent from the registry changes
  nothing but the lines written to its issuer, to which it appends the error
  "room not found" (when the issuer's connection is open): no room, no history, no
  membership and no other connection is touched.
\<close>

theorem Message_unknown_room:
  assumes "2 \<le> length args" and "map_of (Rooms s) (args ! 1) = None"
  shows "v2_Message c args s =
     Inr (s\<lparr>written := (written s)(c := if closed s c then written s c
                                          else written s c @ [''Error: room not found\<newline>''])\<rparr>)"
  using assms
  by (simp add: v2_Message_def index_get_1 slice_from_def Client_Error_def Conn_Write_def)

theorem Message_unknown_room_witness:
  "2 \<le> length [''/msg'', ''nowhere'', ''hi''] \<and>
   map_of (Rooms v2_lobby) ([''/msg'', ''nowhere'', ''hi''] ! 1) = None \<and>
   v2_Message 2 [''/msg'', ''nowhere'', ''hi''] v2_lobby =
     Inr (v2_lobby\<lparr>written := (written v2_lobby)(2 := if closed v2_lobby 2 then written v2_lobby 2
                                          else written v2_lobby 2 @ [''Error: room not found\<newline>''])\<rparr>)"
proof -
  have h1: "2 \<le> length [''/msg'', ''nowhere'', ''hi'']" by simp
  have h2: "map_of (Rooms v2_lobby) ([''/msg'', ''nowhere'', ''hi''] ! 1) = None" by code_simp
  from Message_unknown_room[OF h1 h2] h1 h2 show ?thesis by blast
qed

section \<open>Quit\<close>

lemma chat_quitCurrentRoom_None:
  "Room (clients s c) = None \<Longrightarrow> chat_quitCurrentRoom c s = Inr s"
  by (simp add: chat_quitCurrentRoom_def)

lemma chat_quitCurrentRoom_Some:
  assumes "Room (clients s c) = Some p" and "distinct (chat_Members (heap s p))"
  shows "chat_quitCurrentRoom c s =
     Inr (s\<lparr>heap := (heap s)(p := (heap s p)\<lparr>chat_Members := removeAll c (chat_Members (heap s p))\<rparr>),
            written := (\<lambda>k. if k \<in> set (chat_Members (heap s p)) \<and> k \<noteq> c \<and> \<not> closed s k
                             then written s k @ [''> '' @ NickName (clients s c) @ '' has left the chat'' @ ''\<newline>'']
                             else written s k)\<rparr>)"
proof -
  let ?s1 = "s\<lparr>heap := (heap s)(p := (heap s p)\<lparr>chat_Members := removeAll c (chat_Members (heap s p))\<rparr>)\<rparr>"
  have d: "distinct (chat_Members (heap ?s1 p))" using assms(2) by (simp add: distinct_removeAll)
  show ?thesis
    using assms(1) Room_Broadcast_eq[OF d, of c "NickName (clients s c) @ '' has left the chat''"]
    by (simp add: chat_quitCurrentRoom_def Let_def cong: if_cong)
qed


text \<open>
  Claim C9, as stated, fails in chatv2: \<open>Quit\<close> closes the connection and sends no
  farewell, whether the issuer is in a room or not.
\<close>

theorem v2_Quit_no_farewell:
  "received 1 (v2_Run [Command CmdQuit 1 [''/quit'']] v2_Server) = Some [] \<and>
   hung_up 1 (v2_Run [Command CmdQuit 1 [''/quit'']] v2_Server) = Some True \<and>
   received 1 (v2_Run [Command CmdJoin 1 [''/join'', ''lobby''], Command CmdQuit 1 [''/quit'']] v2_Server) =
     Some [''Anonymous joined the room\<newline>'']"
  by (simp add: v2_eval)

text \<open>
  Claim C9, amended. \<open>Quit\<close> returns and closes the issuer's connection. If the issuer's
  room reference \<open>c.Room\<close> is set, the issuer is removed from the members of the room it
  points to, and the other members of that room with an open connection receive the
  notice that it left. In package \<open>chat\<close> the issuer then receives the farewell before
  its connection is closed; in chatv2 the issuer receives nothing, and its room
  reference is reset. (What \<open>Quit\<close> leaves is the referenced room, and no other.)
\<close>

theorem Quit_effect:
  assumes "case Room (clients s c) of None \<Rightarrow> True | Some p \<Rightarrow> distinct (chat_Members (heap s p))"
    and "case Room (clients t c) of None \<Rightarrow> True | Some room \<Rightarrow> distinct (v2_Clients (heap t room))"
  shows "(\<exists>s'. chat_Quit c args s = Inr s' \<and> closed s' = (closed s)(c := True) \<and>
            written s' c = (if closed s c then written s c else written s c @ [''> sad to see you go :(\<newline>'']) \<and>
            (Room (clients s c) = None \<longrightarrow> heap s' = heap s \<and> (\<forall>k. k \<noteq> c \<longrightarrow> written s' k = written s k)) \<and>
            (\<forall>p. Room (clients s c) = Some p \<longrightarrow>
               chat_Members (heap s' p) = removeAll c (chat_Members (heap s p)) \<and>
               (\<forall>k. k \<noteq> c \<longrightarrow> written s' k =
                  (if k \<in> set (chat_Members (heap s p)) \<and> \<not> closed s k
                   then written s k @ [''> '' @ NickName (clients s c) @ '' has left the chat\<newline>'']
                   else written s k)))) \<and>
         (\<exists>t'. v2_Quit c args t = Inr t' \<and> closed t' = (closed t)(c := True) \<and>
            written t' c = written t c \<and> Room (clients t' c) = None \<and>
            (Room (clients t c) = None \<longrightarrow> heap t' = heap t \<and> written t' = written t) \<and>
            (\<forall>room. Room (clients t c) = Some room \<longrightarrow>
               v2_Clients (heap t' room) = removeAll c (v2_Clients (heap t room)) \<and>
               (\<forall>k. k \<noteq> c \<longrightarrow> written t' k =
                  (if k \<in> set (v2_Clients (heap t room)) \<and> \<not> closed t k
                   then written t k @ [NickName (clients t c) @ '' left the room\<newline>'']
                   else written t k))))"
proof (rule conjI)
  show "\<exists>s'. chat_Quit c args s = Inr s' \<and> closed s' = (closed s)(c := True) \<and>
            written s' c = (if closed s c then written s c else written s c @ [''> sad to see you go :(\<newline>'']) \<and>
            (Room (clients s c) = None \<longrightarrow> heap s' = heap s \<and> (\<forall>k. k \<noteq> c \<longrightarrow> written s' k = written s k)) \<and>
            (\<forall>p. Room (clients s c) = Some p \<longrightarrow>
               chat_Members (heap s' p) = removeAll c (chat_Members (heap s p)) \<and>
               (\<forall>k. k \<noteq> c \<longrightarrow> written s' k =
                  (if k \<in> set (chat_Members (heap s p)) \<and> \<not> closed s k
                   then written s k @ [''> '' @ NickName (clients s c) @ '' has left the chat\<newline>'']
                   else written s k)))"
  proof (cases "Room (clients s c)")
    case None
    then show ?thesis
      by (simp add: chat_Quit_def chat_quitCurrentRoom_None Conn_Close_def Client_Message_def Conn_Write_def)
  next
    case (Some p)
    with assms(1) have d: "distinct (chat_Members (heap s p))" by simp
    show ?thesis
      using Some
      by (simp add: chat_Quit_def chat_quitCurrentRoom_Some[OF Some d] Conn_Close_def
          Client_Message_def Conn_Write_def)
  qed
next
  show "\<exists>t'. v2_Quit c args t = Inr t' \<and> closed t' = (closed t)(c := True) \<and>
            written t' c = written t c \<and> Room (clients t' c) = None \<and>
            (Room (clients t c) = None \<longrightarrow> heap t' = heap t \<and> written t' = written t) \<and>
            (\<forall>room. Room (clients t c) = Some room \<longrightarrow>
               v2_Clients (heap t' room) = removeAll c (v2_Clients (heap t room)) \<and>
               (\<forall>k. k \<noteq> c \<longrightarrow> written t' k =
                  (if k \<in> set (v2_Clients (heap t room)) \<and> \<not> closed t k
                   then written t k @ [NickName (clients t c) @ '' left the room\<newline>'']
                   else written t k)))"
  proof (cases "Room (clients t c)")
    case None
    then show ?thesis
      by (simp add: v2_Quit_def Conn_Close_def)
  next
    case (Some room)
    with assms(2) have d: "distinct (v2_Clients (heap t room))" by simp
    let ?sa = "t\<lparr>heap := (heap t)(room := (heap t room)\<lparr>v2_Clients := removeAll c (v2_Clients (heap t room))\<rparr>)\<rparr>"
    have da: "distinct (v2_Clients (heap ?sa room))" using d by (simp add: distinct_removeAll)
    show ?thesis
      using Some v2_broadcastMessage_eq[OF da, where msg = "NickName (clients t c) @ '' left the room''"]
      by (simp add: v2_Quit_def Conn_Close_def Let_def)
  qed
qed

theorem Quit_effect_witness:
  "(case Room (clients chat_lobby 1) of None \<Rightarrow> True | Some p \<Rightarrow> distinct (chat_Members (heap chat_lobby p))) \<and>
   (case Room (clients v2_lobby 1) of None \<Rightarrow> True | Some room \<Rightarrow> distinct (v2_Clients (heap v2_lobby room))) \<and>
   Room (clients chat_lobby 1) = Some 0 \<and> chat_Members (heap chat_lobby 0) = [2, 1] \<and>
   Room (clients v2_lobby 1) = Some 0 \<and> v2_Clients (heap v2_lobby 0) = [2, 1] \<and>
   (\<exists>s'. chat_Quit 1 [''/quit''] chat_lobby = Inr s' \<and> closed s' 1 \<and>
      written s' 1 = written chat_lobby 1 @ [''> sad to see you go :(\<newline>''] \<and>
      chat_Members (heap s' 0) = [2] \<and>
      written s' 2 = written chat_lobby 2 @ [''> Anonymous has left the chat\<newline>'']) \<and>
   (\<exists>t'. v2_Quit 1 [''/quit''] v2_lobby = Inr t' \<and> closed t' 1 \<and>
      written t' 1 = written v2_lobby 1 \<and>
      v2_Clients (heap t' 0) = [2] \<and>
      written t' 2 = written v2_lobby 2 @ [''Anonymous left the room\<newline>''])"
proof -
  have r1: "Room (clients chat_lobby 1) = Some 0" by code_simp
  have m1: "chat_Members (heap chat_lobby 0) = [2, 1]" by code_simp
  have r2: "Room (clients v2_lobby 1) = Some 0" by code_simp
  have m2: "v2_Clients (heap v2_lobby 0) = [2, 1]" by code_simp
  have n1: "NickName (clients chat_lobby 1) = ''Anonymous''" by code_simp
  have n2: "NickName (clients v2_lobby 1) = ''Anonymous''" by code_simp
  have c1: "\<not> closed chat_lobby 1" "\<not> closed chat_lobby 2" by code_simp+
  have c2: "\<not> closed v2_lobby 2" by code_simp
  have h1: "case Room (clients chat_lobby 1) of None \<Rightarrow> True
            | Some p \<Rightarrow> distinct (chat_Members (heap chat_lobby p))"
    using r1 m1 by simp
  have h2: "case Room (clients v2_lobby 1) of None \<Rightarrow> True
            | Some room \<Rightarrow> distinct (v2_Clients (heap v2_lobby room))"
    using r2 m2 by simp
  from Quit_effect[OF h1 h2, of "[''/quit'']"] r1 m1 r2 m2 n1 n2 c1 c2
  have "(\<exists>s'. chat_Quit 1 [''/quit''] chat_lobby = Inr s' \<and> closed s' 1 \<and>
      written s' 1 = written chat_lobby 1 @ [''> sad to see you go :(\<newline>''] \<and>
      chat_Members (heap s' 0) = [2] \<and>
      written s' 2 = written chat_lobby 2 @ [''> Anonymous has left the chat\<newline>'']) \<and>
   (\<exists>t'. v2_Quit 1 [''/quit''] v2_lobby = Inr t' \<and> closed t' 1 \<and>
      written t' 1 = written v2_lobby 1 \<and>
      v2_Clients (heap t' 0) = [2] \<and>
      written t' 2 = written v2_lobby 2 @ [''Anonymous left the room\<newline>''])"
    by auto
  with h1 h2 r1 m1 r2 m2 show ?thesis by blast
qed

text \<open>
  In chatv2 the room reference is the room joined last. A client that joined \<open>A\<close> and
  then \<open>B\<close> is still among the clients of \<open>A\<close> after its \<open>Quit\<close>, and the clients of
  \<open>A\<close> get no notice: \<open>Join\<close> did not take it out of \<open>A\<close>, and \<open>Quit\<close> leaves \<open>B\<close> only.
\<close>

lemma v2_Quit_leaves_other_rooms:
  "v2_clients_of ''A''
     (v2_Run [Command CmdJoin 2 [''/join'', ''A''], Command CmdJoin 1 [''/join'', ''A''],
              Command CmdJoin 1 [''/join'', ''B''], Command CmdQuit 1 [''/quit'']] v2_Server) = Some [1, 2] \<and>
   v2_clients_of ''B''
     (v2_Run [Command CmdJoin 2 [''/join'', ''A''], Command CmdJoin 1 [''/join'', ''A''],
              Command CmdJoin 1 [''/join'', ''B''], Command CmdQuit 1 [''/quit'']] v2_Server) = Some [] \<and>
   received 2
     (v2_Run [Command CmdJoin 2 [''/join'', ''A''], Command CmdJoin 1 [''/join'', ''A''],
              Command CmdJoin 1 [''/join'', ''B''], Command CmdQuit 1 [''/quit'']] v2_Server) =
     Some [''Anonymous joined the room\<newline>'', ''Anonymous joined the room\<newline>'']"
  by (simp add: v2_eval)

section \<open>Who receives a broadcast\<close>




end
